theory Spec2Isabelle
  imports Main "HOL-Library.Word" "HOL-Library.Sublist"
begin

section \<open>Strings of the source language\<close>

text \<open>
  A TypeScript string is a sequence of UTF-16 code units. A literal of the source that is
  plain ASCII is written \<open>utf16 ''...''\<close>: every such character is one code unit with the
  same number.
\<close>

type_synonym jschar = "16 word"
type_synonym jsstring = "jschar list"

definition utf16 :: "string \<Rightarrow> jsstring" where
  "utf16 s = map of_char s"

text \<open>
  The code units that \<open>String.prototype.trim\<close> strips and that the regular expression
  class \<open>\s\<close> accepts: ECMAScript's WhiteSpace and LineTerminator productions (TAB, LF, VT,
  FF, CR, SP, NBSP, the Unicode space separators U+1680, U+2000..U+200A, U+202F, U+205F,
  U+3000, the separators U+2028 and U+2029, and U+FEFF).
\<close>

definition is_space :: "jschar \<Rightarrow> bool" where
  "is_space c =
     (c = 0x9 \<or> c = 0xA \<or> c = 0xB \<or> c = 0xC \<or> c = 0xD \<or> c = 0x20 \<or> c = 0xA0 \<or>
      c = 0x1680 \<or> (0x2000 \<le> c \<and> c \<le> 0x200A) \<or> c = 0x2028 \<or> c = 0x2029 \<or>
      c = 0x202F \<or> c = 0x205F \<or> c = 0x3000 \<or> c = 0xFEFF)"

text \<open>\<open>s.trim()\<close>: the string without its leading and trailing white space.\<close>

definition trim :: "jsstring \<Rightarrow> jsstring" where
  "trim s = rev (dropWhile is_space (rev (dropWhile is_space s)))"

section \<open>The regular expressions of the labeled-section parser\<close>

text \<open>
  The three patterns of \<open>handleCorrect\<close> in \<open>src/App.tsx\<close> are sequences of these nodes: a
  literal, a starred character class (greedy \<open>c*\<close> or lazy \<open>c*?\<close>), the parentheses of
  capture group 1, and a lookahead \<open>(?=a|b)\<close> whose alternatives are a literal or the end
  anchor \<open>$\<close>. No pattern carries a flag, so \<open>$\<close> holds at the end of the input only.
  The classes are \<open>\s\<close> and \<open>[\s\S]\<close>, which every code unit belongs to.
\<close>

datatype charclass = WhiteSpace | AnyChar

fun accepts :: "charclass \<Rightarrow> jschar \<Rightarrow> bool" where
  "accepts WhiteSpace c = is_space c"
| "accepts AnyChar c = True"

datatype assertion = AtChars jsstring | AtEnd

datatype node =
    Chars jsstring
  | Repeat bool charclass
  | Open
  | Close
  | Ahead "assertion list"

fun holds :: "assertion \<Rightarrow> jsstring \<Rightarrow> bool" where
  "holds (AtChars l) s = prefix l s"
| "holds AtEnd s = (s = [])"

text \<open>
  The backtracking matcher of ECMAScript, on the rest of the pattern and the rest of the
  input. \<open>on\<close> says whether group 1 is open and \<open>cap\<close> is what it has captured so far; a
  match returns the capture, a failure \<open>None\<close>. A greedy star first tries one more
  character and falls back to the rest of the pattern; a lazy star first tries the rest of
  the pattern and falls back to one more character.
\<close>

fun rx_match :: "node list \<Rightarrow> jsstring \<Rightarrow> bool \<Rightarrow> jsstring \<Rightarrow> jsstring option" where
  "rx_match [] s on cap = Some cap"
| "rx_match (Chars l # k) s on cap =
     (if prefix l s then rx_match k (drop (length l) s) on (if on then cap @ l else cap)
      else None)"
| "rx_match (Open # k) s on cap = rx_match k s True []"
| "rx_match (Close # k) s on cap = rx_match k s False cap"
| "rx_match (Ahead as # k) s on cap =
     (if list_ex (\<lambda>a. holds a s) as then rx_match k s on cap else None)"
| "rx_match (Repeat greedy p # k) [] on cap = rx_match k [] on cap"
| "rx_match (Repeat greedy p # k) (c # s) on cap =
     (if \<not> accepts p c then rx_match k (c # s) on cap
      else if greedy then
        (case rx_match (Repeat greedy p # k) s on (if on then cap @ [c] else cap) of
           Some g \<Rightarrow> Some g
         | None \<Rightarrow> rx_match k (c # s) on cap)
      else
        (case rx_match k (c # s) on cap of
           Some g \<Rightarrow> Some g
         | None \<Rightarrow> rx_match (Repeat greedy p # k) s on (if on then cap @ [c] else cap)))"

text \<open>
  \<open>text.match(re)\<close> for a pattern without the \<open>g\<close> flag: the match at the leftmost start
  position that has one, or \<open>null\<close>. The source reads element 1 of the result only, so the
  model returns capture group 1.
\<close>

fun rx_exec :: "node list \<Rightarrow> jsstring \<Rightarrow> jsstring option" where
  "rx_exec re [] = rx_match re [] False []"
| "rx_exec re (c # s) =
     (case rx_match re (c # s) False [] of Some g \<Rightarrow> Some g | None \<Rightarrow> rx_exec re s)"

text \<open>\<open>/CORRECTED_TEXT:\s*([\s\S]*?)(?=WORD_USAGE:|$)/\<close>\<close>

definition re_corrected :: "node list" where
  "re_corrected =
     [Chars (utf16 ''CORRECTED_TEXT:''), Repeat True WhiteSpace,
      Open, Repeat False AnyChar, Close,
      Ahead [AtChars (utf16 ''WORD_USAGE:''), AtEnd]]"

text \<open>\<open>/WORD_USAGE:\s*([\s\S]*?)(?=EXPLANATION:|$)/\<close>\<close>

definition re_wordUsage :: "node list" where
  "re_wordUsage =
     [Chars (utf16 ''WORD_USAGE:''), Repeat True WhiteSpace,
      Open, Repeat False AnyChar, Close,
      Ahead [AtChars (utf16 ''EXPLANATION:''), AtEnd]]"

text \<open>\<open>/EXPLANATION:\s*([\s\S]*)/\<close>\<close>

definition re_explanation :: "node list" where
  "re_explanation =
     [Chars (utf16 ''EXPLANATION:''), Repeat True WhiteSpace,
      Open, Repeat True AnyChar, Close]"

section \<open>The correction result and the labeled-section parser\<close>

record CorrectionResult =
  correctedText :: jsstring
  wordUsage :: jsstring
  explanation :: jsstring

text \<open>
  The parse step of \<open>handleCorrect\<close> in \<open>src/App.tsx\<close>: three matches on the response text,
  each field the trimmed capture of its match or a fixed placeholder.
\<close>

definition parseLabeled :: "jsstring \<Rightarrow> CorrectionResult" where
  "parseLabeled text =
     (let correctedMatch = rx_exec re_corrected text;
          wordUsageMatch = rx_exec re_wordUsage text;
          explanationMatch = rx_exec re_explanation text
      in \<lparr> correctedText =
             (case correctedMatch of Some g \<Rightarrow> trim g
              | None \<Rightarrow> utf16 ''No correction found''),
           wordUsage =
             (case wordUsageMatch of Some g \<Rightarrow> trim g
              | None \<Rightarrow> utf16 ''No word usage information found''),
           explanation =
             (case explanationMatch of Some g \<Rightarrow> trim g
              | None \<Rightarrow> utf16 ''No explanation found'') \<rparr>)"

text \<open>
  Helpers for stating what a match captures: the text after the first occurrence of a
  marker, and the part of a text before the first occurrence of a stop marker (all of it
  when the stop marker does not occur).
\<close>

fun after_first :: "jsstring \<Rightarrow> jsstring \<Rightarrow> jsstring option" where
  "after_first m [] = (if m = [] then Some [] else None)"
| "after_first m (c # s) =
     (if prefix m (c # s) then Some (drop (length m) (c # s)) else after_first m s)"

fun before_first :: "jsstring \<Rightarrow> jsstring \<Rightarrow> jsstring" where
  "before_first m [] = []"
| "before_first m (c # s) = (if prefix m (c # s) then [] else c # before_first m s)"

text \<open>A string that neither starts nor ends with white space.\<close>

definition outer_space_free :: "jsstring \<Rightarrow> bool" where
  "outer_space_free s =
     (case s of [] \<Rightarrow> True | c # r \<Rightarrow> (if is_space c then False else \<not> is_space (last s)))"

text \<open>
  The section of a marker as the specification words it, for comparison with the parser:
  the text from immediately after the marker up to the next marker, whichever of the
  three it is, or to the end of the text.
\<close>

definition markers :: "jsstring list" where
  "markers = [utf16 ''CORRECTED_TEXT:'', utf16 ''WORD_USAGE:'', utf16 ''EXPLANATION:'']"

fun upto_next_marker :: "jsstring \<Rightarrow> jsstring" where
  "upto_next_marker [] = []"
| "upto_next_marker (c # s) =
     (if list_ex (\<lambda>m. prefix m (c # s)) markers then [] else c # upto_next_marker s)"

definition spec_section :: "jsstring \<Rightarrow> jsstring \<Rightarrow> jsstring option" where
  "spec_section m t = map_option upto_next_marker (after_first m t)"

section \<open>Structured mode: the schema of the response\<close>

text \<open>
  A value as \<open>JSON.parse\<close> returns it. An object is the list of its properties, read
  with \<open>map_of\<close>; a number is its IEEE 754 double.
\<close>

datatype json =
    JNull
  | JBool bool
  | JNumber "64 word"
  | JString jsstring
  | JArray "json list"
  | JObject "(jsstring \<times> json) list"

text \<open>What the body of the \<open>try\<close> block of \<open>handleCorrect\<close> can throw.\<close>

datatype thrown = SdkError | NoResponseFromApi | SyntaxError | ZodError

text \<open>
  \<open>z.string()\<close> applied to the value found under a key, \<open>None\<close> being \<open>undefined\<close>: a
  string passes unchanged, anything else is an issue.
\<close>

fun z_string :: "json option \<Rightarrow> jsstring option" where
  "z_string (Some (JString s)) = Some s"
| "z_string v = None"

text \<open>
  \<open>correctionSchema.parse\<close>, for \<open>z.object\<close> of the three \<open>z.string()\<close> fields
  \<open>correctedText\<close>, \<open>wordUsage\<close> and \<open>explanation\<close>: the input must be an object, each of
  the three keys must hold a string, other keys are dropped; any issue throws.
\<close>

definition correctionSchema_parse :: "json \<Rightarrow> thrown + CorrectionResult" where
  "correctionSchema_parse j =
     (case j of
        JObject kvs \<Rightarrow>
          (case z_string (map_of kvs (utf16 ''correctedText'')) of
             None \<Rightarrow> Inl ZodError
           | Some c \<Rightarrow>
               (case z_string (map_of kvs (utf16 ''wordUsage'')) of
                  None \<Rightarrow> Inl ZodError
                | Some w \<Rightarrow>
                    (case z_string (map_of kvs (utf16 ''explanation'')) of
                       None \<Rightarrow> Inl ZodError
                     | Some e \<Rightarrow>
                         Inr \<lparr> correctedText = c, wordUsage = w, explanation = e \<rparr>)))
      | _ \<Rightarrow> Inl ZodError)"

section \<open>Session state and the browser around it\<close>

text \<open>The \<open>useState\<close> cells of \<open>App\<close>, with their source names.\<close>

record SessionState =
  apiKey :: jsstring
  showSettings :: bool
  tempApiKey :: jsstring
  inputText :: jsstring
  result :: "CorrectionResult option"
  loading :: bool
  error :: jsstring
  simpleView :: bool

text \<open>
  The component state together with what the handlers reach outside it: the browser's
  local storage and the console, which receives what \<open>console.error\<close> logs.
\<close>

record App =
  session :: SessionState
  localStorage :: "jsstring \<rightharpoonup> jsstring"
  console :: "thrown list"

text \<open>The state of a freshly created component, before the mount effect has run.\<close>

definition initialState :: SessionState where
  "initialState =
     \<lparr> apiKey = [], showSettings = False, tempApiKey = [], inputText = [],
       result = None, loading = False, error = [], simpleView = False \<rparr>"

text \<open>
  \<open>handleSaveApiKey\<close>: a key that is not blank is stored trimmed, the settings close
  and the pending key is cleared (the write to local storage is taken to succeed).
\<close>

definition handleSaveApiKey :: "App \<Rightarrow> App" where
  "handleSaveApiKey a =
     (if trim (tempApiKey (session a)) \<noteq> [] then
        a\<lparr> localStorage :=
             (localStorage a)(utf16 ''gemini_api_key'' \<mapsto> trim (tempApiKey (session a))),
           session :=
             (session a)\<lparr> apiKey := trim (tempApiKey (session a)),
                          showSettings := False,
                          tempApiKey := [] \<rparr> \<rparr>
      else a)"

section \<open>The correction request\<close>

text \<open>
  One call of \<open>generateContent\<close>: the key the client was built with, the model, the prompt
  and, in structured mode, the response MIME type (the JSON schema sent along with it is
  derived from \<open>correctionSchema\<close> and is not part of the model).
\<close>

record GenerateRequest =
  credential :: jsstring
  model :: jsstring
  contents :: jsstring
  responseMimeType :: "jsstring option"

text \<open>
  What the awaited call does: it rejects (network, authentication or service error), or
  it resolves to a response whose \<open>text\<close> is a string or \<open>undefined\<close>.
\<close>

datatype api_reply = Rejects | Resolves "jsstring option"

text \<open>The prompt of \<open>src/App.tsx\<close> (labeled sections).\<close>

definition prompt_labeled :: "jsstring \<Rightarrow> jsstring" where
  "prompt_labeled input =
     utf16 ''You are an English grammar correction assistant. Analyze the following sentence and provide:\<newline>'' @
     utf16 ''\<newline>'' @
     utf16 ''1. CORRECTED_TEXT: The grammatically correct version of the sentence (simple and concise, remove unnecessary words)\<newline>'' @
     utf16 ''2. WORD_USAGE: Identify words used incorrectly and explain the correct word type/usage\<newline>'' @
     utf16 ''3. EXPLANATION: Explain how to make the sentence correct\<newline>'' @
     utf16 ''\<newline>'' @
     utf16 ''Input sentence: \"'' @
     input @
     utf16 ''\"\<newline>'' @
     utf16 ''\<newline>'' @
     utf16 ''Format your response EXACTLY as follows:\<newline>'' @
     utf16 ''CORRECTED_TEXT:\<newline>'' @
     utf16 ''[corrected sentence here]\<newline>'' @
     utf16 ''\<newline>'' @
     utf16 ''WORD_USAGE:\<newline>'' @
     utf16 ''[word usage corrections here]\<newline>'' @
     utf16 ''\<newline>'' @
     utf16 ''EXPLANATION:\<newline>'' @
     utf16 ''[explanation here]''"

text \<open>The prompt of the structured variant.\<close>

definition prompt_structured :: "jsstring \<Rightarrow> jsstring" where
  "prompt_structured input =
     utf16 ''You are an English grammar correction assistant. Analyze the following text:\<newline>'' @
     utf16 ''\<newline>'' @
     utf16 ''\"'' @
     input @
     utf16 ''\"\<newline>'' @
     utf16 ''\<newline>'' @
     utf16 ''CRITICAL INSTRUCTIONS:\<newline>'' @
     utf16 ''- ONLY correct grammar and spelling errors\<newline>'' @
     utf16 ''- DO NOT change the meaning of the original sentence\<newline>'' @
     utf16 ''- DO NOT rephrase or rewrite the content\<newline>'' @
     utf16 ''- Preserve the original intent, tone, and message exactly as written\<newline>'' @
     utf16 ''- Preserve the original formatting exactly, including line breaks, paragraph breaks, bullet points, numbered lists, and any other formatting structures\<newline>'' @
     utf16 ''\<newline>'' @
     utf16 ''Provide:\<newline>'' @
     utf16 ''1. The grammatically correct version of the text with all errors fixed but meaning unchanged\<newline>'' @
     utf16 ''2. Identify words used incorrectly and explain the correct word type/usage\<newline>'' @
     utf16 ''3. Explain how to make the text correct''"

text \<open>
  A handler runs up to its \<open>await\<close>: either it has returned (\<open>Done\<close>), or it has issued
  the one request and is suspended in the given state (\<open>Await\<close>). A request is issued in
  no other way.
\<close>

datatype step = Done App | Await App GenerateRequest

text \<open>\<open>handleCorrect\<close> of \<open>src/App.tsx\<close>, up to the \<open>await\<close>.\<close>

definition handleCorrect_labeled_begin :: "App \<Rightarrow> step" where
  "handleCorrect_labeled_begin a =
     (if trim (inputText (session a)) = [] then
        Done (a\<lparr>session := (session a)\<lparr>error := utf16 ''Please enter a sentence to correct.''\<rparr>\<rparr>)
      else if apiKey (session a) = [] then
        Done (a\<lparr>session := (session a)\<lparr>showSettings := True,
                                   error := utf16 ''Please set your Google API key first.''\<rparr>\<rparr>)
      else
        Await (a\<lparr>session := (session a)\<lparr>loading := True, error := [], result := None\<rparr>\<rparr>)
          \<lparr> credential = apiKey (session a),
            model = utf16 ''gemini-2.0-flash-exp'',
            contents = prompt_labeled (inputText (session a)),
            responseMimeType = None \<rparr>)"

text \<open>\<open>handleCorrect\<close> of the structured variant, up to the \<open>await\<close>.\<close>

definition handleCorrect_structured_begin :: "App \<Rightarrow> step" where
  "handleCorrect_structured_begin a =
     (if trim (inputText (session a)) = [] then
        Done (a\<lparr>session := (session a)\<lparr>error := utf16 ''Please enter text to correct.''\<rparr>\<rparr>)
      else if apiKey (session a) = [] then
        Done (a\<lparr>session := (session a)\<lparr>showSettings := True,
                                   error := utf16 ''Please set your Google API key first.''\<rparr>\<rparr>)
      else
        Await (a\<lparr>session := (session a)\<lparr>loading := True, error := [], result := None\<rparr>\<rparr>)
          \<lparr> credential = apiKey (session a),
            model = utf16 ''gemini-2.5-flash-lite'',
            contents = prompt_structured (inputText (session a)),
            responseMimeType = Some (utf16 ''application/json'') \<rparr>)"

text \<open>\<open>response.text || ''\<close>\<close>

definition text_or_empty :: "jsstring option \<Rightarrow> jsstring" where
  "text_or_empty t = (case t of None \<Rightarrow> [] | Some s \<Rightarrow> s)"

text \<open>
  The rest of the \<open>try\<close> block once the call has settled, labeled mode: the value handed
  to \<open>setResult\<close>, or what was thrown.
\<close>

definition labeled_try :: "api_reply \<Rightarrow> thrown + CorrectionResult" where
  "labeled_try reply =
     (case reply of
        Rejects \<Rightarrow> Inl SdkError
      | Resolves t \<Rightarrow>
          (if text_or_empty t = [] then Inl NoResponseFromApi
           else Inr (parseLabeled (text_or_empty t))))"

text \<open>
  The same for structured mode. \<open>JSON.parse\<close> is the built-in of the language, taken as
  the parameter \<open>JSON_parse\<close>: the value a text denotes, or \<open>None\<close> where it throws.
\<close>

definition structured_try :: "(jsstring \<rightharpoonup> json) \<Rightarrow> api_reply \<Rightarrow> thrown + CorrectionResult" where
  "structured_try JSON_parse reply =
     (case reply of
        Rejects \<Rightarrow> Inl SdkError
      | Resolves t \<Rightarrow>
          (if text_or_empty t = [] then Inl NoResponseFromApi
           else (case JSON_parse (text_or_empty t) of
                   None \<Rightarrow> Inl SyntaxError
                 | Some j \<Rightarrow> correctionSchema_parse j)))"

text \<open>
  The end of the \<open>try\<close> statement, the same in both variants: \<open>setResult\<close> on success;
  in \<open>catch\<close> the generic message and the log; in \<open>finally\<close> \<open>setLoading(false)\<close>.
\<close>

definition settle :: "thrown + CorrectionResult \<Rightarrow> App \<Rightarrow> App" where
  "settle outcome a =
     (case outcome of
        Inr r \<Rightarrow> a\<lparr>session := (session a)\<lparr>result := Some r, loading := False\<rparr>\<rparr>
      | Inl e \<Rightarrow>
          a\<lparr> session :=
               (session a)\<lparr> error :=
                              utf16 ''Failed to get correction. Please check your API key and try again.'',
                            loading := False \<rparr>,
             console := console a @ [e] \<rparr>)"

text \<open>
  The whole handlers, from the click to the end of \<open>finally\<close>, with no other event
  handled while the call is pending. \<open>reply\<close> is what the remote service does with the
  request, should one be issued.
\<close>

definition handleCorrect_labeled :: "api_reply \<Rightarrow> App \<Rightarrow> App" where
  "handleCorrect_labeled reply a =
     (case handleCorrect_labeled_begin a of
        Done a' \<Rightarrow> a'
      | Await a' rq \<Rightarrow> settle (labeled_try reply) a')"

definition handleCorrect_structured :: "(jsstring \<rightharpoonup> json) \<Rightarrow> api_reply \<Rightarrow> App \<Rightarrow> App" where
  "handleCorrect_structured JSON_parse reply a =
     (case handleCorrect_structured_begin a of
        Done a' \<Rightarrow> a'
      | Await a' rq \<Rightarrow> settle (structured_try JSON_parse reply) a')"

section \<open>Concrete inputs\<close>

text \<open>A response with the corrected and the explanation section and no usage section.\<close>

definition sample_no_usage :: jsstring where
  "sample_no_usage = utf16 ''CORRECTED_TEXT:\<newline>A\<newline>\<newline>EXPLANATION:\<newline>C''"

text \<open>A session with a key and a sentence, an old message and an old result.\<close>

definition sample_app :: App where
  "sample_app =
     \<lparr> session = initialState\<lparr> apiKey := utf16 ''key'', inputText := utf16 ''He go home'',
                                error := utf16 ''old'',
                                result := Some \<lparr> correctedText = utf16 ''x'', wordUsage = utf16 ''y'',
                                                 explanation = utf16 ''z'' \<rparr> \<rparr>,
       localStorage = [utf16 ''gemini_api_key'' \<mapsto> utf16 ''key''],
       console = [] \<rparr>"

text \<open>A session without a key.\<close>

definition keyless_app :: App where
  "keyless_app =
     \<lparr> session = initialState\<lparr> inputText := utf16 ''He go home'' \<rparr>,
       localStorage = Map.empty,
       console = [] \<rparr>"

text \<open>A first visit: the settings are open and the key \<open>" abc "\<close> has been typed.\<close>

definition fresh_app :: App where
  "fresh_app =
     \<lparr> session = initialState\<lparr> showSettings := True, tempApiKey := utf16 '' abc '',
                                inputText := utf16 ''He go home'' \<rparr>,
       localStorage = Map.empty,
       console = [] \<rparr>"

text \<open>A session whose input text and pending key are white space only.\<close>

definition blank_app :: App where
  "blank_app =
     \<lparr> session = initialState\<lparr> apiKey := utf16 ''key'', showSettings := True,
                                tempApiKey := utf16 '' '' @ [0x9, 0x2003],
                                inputText := utf16 '' \<newline> '' @ [0xA0, 0x3000] \<rparr>,
       localStorage = [utf16 ''gemini_api_key'' \<mapsto> utf16 ''key''],
       console = [] \<rparr>"

text \<open>
  Structured responses with the values they denote: three empty strings; three strings
  and a further key; a missing field and a field of the wrong type.
\<close>

definition empty_fields_text :: jsstring where
  "empty_fields_text = utf16 ''{\"correctedText\":\"\",\"wordUsage\":\"\",\"explanation\":\"\"}''"

definition empty_fields_json :: json where
  "empty_fields_json =
     JObject [(utf16 ''correctedText'', JString []), (utf16 ''wordUsage'', JString []),
              (utf16 ''explanation'', JString [])]"

definition sample_reply_text :: jsstring where
  "sample_reply_text =
     utf16 ''{\"correctedText\":\" He goes home. \",\"wordUsage\":\"go -> goes\",\"explanation\":\"Third person.\",\"extra\":1}''"

definition sample_reply_json :: json where
  "sample_reply_json =
     JObject [(utf16 ''correctedText'', JString (utf16 '' He goes home. '')),
              (utf16 ''wordUsage'', JString (utf16 ''go -> goes'')),
              (utf16 ''explanation'', JString (utf16 ''Third person.'')),
              (utf16 ''extra'', JNumber 0x3FF0000000000000)]"

definition missing_field_text :: jsstring where
  "missing_field_text = utf16 ''{\"correctedText\":\"He goes home.\",\"wordUsage\":0}''"

definition missing_field_json :: json where
  "missing_field_json =
     JObject [(utf16 ''correctedText'', JString (utf16 ''He goes home.'')),
              (utf16 ''wordUsage'', JNumber 0)]"

section \<open>What the three patterns capture\<close>

lemma lazy_section:
  "rx_match [Repeat False AnyChar, Close, Ahead [AtChars m, AtEnd]] s True cap
     = Some (cap @ before_first m s)"
  by (induction s arbitrary: cap) simp_all

lemma greedy_rest:
  "rx_match [Repeat True AnyChar, Close] s True cap = Some (cap @ s)"
  by (induction s arbitrary: cap) simp_all

lemma skip_space_lazy:
  "rx_match [Repeat True WhiteSpace, Open, Repeat False AnyChar, Close,
             Ahead [AtChars m, AtEnd]] s False cap
     = Some (before_first m (dropWhile is_space s))"
proof (induction s)
  case Nil
  show ?case by (simp add: lazy_section)
next
  case (Cons c s)
  show ?case
  proof (cases "is_space c")
    case True
    with Cons show ?thesis by simp
  next
    case False
    then show ?thesis by (simp add: lazy_section)
  qed
qed

lemma skip_space_greedy:
  "rx_match [Repeat True WhiteSpace, Open, Repeat True AnyChar, Close] s False cap
     = Some (dropWhile is_space s)"
proof (induction s)
  case Nil
  show ?case by (simp add: greedy_rest)
next
  case (Cons c s)
  show ?case
  proof (cases "is_space c")
    case True
    with Cons show ?thesis by simp
  next
    case False
    then show ?thesis by (simp add: greedy_rest)
  qed
qed

lemma exec_lazy:
  assumes "m \<noteq> []"
  shows "rx_exec [Chars m, Repeat True WhiteSpace, Open, Repeat False AnyChar, Close,
                  Ahead [AtChars stop, AtEnd]] t
           = map_option (\<lambda>r. before_first stop (dropWhile is_space r)) (after_first m t)"
  using assms by (induction t) (simp_all add: skip_space_lazy)

lemma exec_greedy:
  assumes "m \<noteq> []"
  shows "rx_exec [Chars m, Repeat True WhiteSpace, Open, Repeat True AnyChar, Close] t
           = map_option (dropWhile is_space) (after_first m t)"
  using assms by (induction t) (simp_all add: skip_space_greedy)

lemma after_first_sublist: "after_first m t = None \<longleftrightarrow> \<not> sublist m t"
  by (induction t) (auto simp: sublist_Cons_right)

lemma before_first_absent: "\<not> sublist m s \<Longrightarrow> before_first m s = s"
  by (induction s) (auto simp: sublist_Cons_right)

section \<open>Facts about \<open>trim\<close>\<close>

lemma trim_dropWhile: "trim (dropWhile is_space s) = trim s"
  by (simp add: trim_def)

lemma all_dropWhile: "(\<forall>x\<in>set (dropWhile P s). P x) \<longleftrightarrow> (\<forall>x\<in>set s. P x)"
  by (induction s) auto

lemma trim_empty_iff: "trim s = [] \<longleftrightarrow> (\<forall>c\<in>set s. is_space c)"
  by (simp add: trim_def dropWhile_eq_Nil_conv all_dropWhile)

lemma last_dropWhile_keep: "dropWhile P xs \<noteq> [] \<Longrightarrow> last (dropWhile P xs) = last xs"
  by (induction xs) (auto split: if_splits)

lemma outer_space_free_iff:
  "outer_space_free s \<longleftrightarrow> (s = [] \<or> (\<not> is_space (hd s) \<and> \<not> is_space (last s)))"
  by (cases s) (simp_all add: outer_space_free_def)

lemma outer_space_free_trim: "outer_space_free (trim s)"
proof -
  define u where "u = dropWhile is_space s"
  define v where "v = dropWhile is_space (rev u)"
  have t: "trim s = rev v" by (simp add: trim_def u_def v_def)
  show ?thesis
  proof (cases "v = []")
    case True
    then show ?thesis by (simp add: t outer_space_free_iff)
  next
    case False
    then have hv: "\<not> is_space (hd v)" unfolding v_def by (rule hd_dropWhile)
    from False have "rev u \<noteq> []" by (auto simp: v_def)
    then have un: "u \<noteq> []" by simp
    then have hu: "\<not> is_space (hd u)" unfolding u_def by (rule hd_dropWhile)
    from False have "last v = last (rev u)" unfolding v_def by (rule last_dropWhile_keep)
    also from un have "\<dots> = hd u" by (simp add: last_rev)
    finally have lv: "\<not> is_space (last v)" using hu by simp
    from False hv lv show ?thesis
      by (simp add: t outer_space_free_iff hd_rev last_rev)
  qed
qed

lemma trim_fixed: "outer_space_free s \<Longrightarrow> trim s = s"
proof (cases s)
  case Nil
  then show ?thesis by (simp add: trim_def)
next
  case (Cons c r)
  assume "outer_space_free s"
  with Cons have h: "\<not> is_space (hd s)" and l: "\<not> is_space (last s)" and n: "s \<noteq> []"
    by (simp_all add: outer_space_free_iff)
  from h n have d: "dropWhile is_space s = s" by (cases s) simp_all
  from l n have "\<not> is_space (hd (rev s))" by (simp add: hd_rev)
  with n have "dropWhile is_space (rev s) = rev s" by (cases "rev s") simp_all
  with d show ?thesis by (simp add: trim_def)
qed

lemma trim_idem: "trim (trim s) = trim s"
  by (rule trim_fixed) (rule outer_space_free_trim)

lemma after_first_suffix: "after_first m t = Some r \<Longrightarrow> suffix r t"
proof (induction t)
  case Nil
  then show ?case by (simp split: if_splits)
next
  case (Cons c s)
  show ?case
  proof (cases "prefix m (c # s)")
    case True
    with Cons.prems have "r = drop (length m) (c # s)" by simp
    then show ?thesis by (simp only: suffix_drop)
  next
    case False
    with Cons show ?thesis by (simp add: suffix_Cons)
  qed
qed

lemma after_first_decomp:
  assumes "m \<noteq> []" and "after_first m t = Some r"
  shows "\<exists>p. t = p @ m @ r \<and> \<not> sublist m (p @ butlast m)"
  using assms(2)
proof (induction t)
  case Nil
  with assms(1) show ?case by simp
next
  case (Cons c s)
  show ?case
  proof (cases "prefix m (c # s)")
    case True
    with Cons.prems have r: "r = drop (length m) (c # s)" by simp
    from True have "c # s = m @ r" unfolding r by (metis append_eq_conv_conj prefix_def)
    moreover have "\<not> sublist m (butlast m)"
    proof
      assume "sublist m (butlast m)"
      then have "length m \<le> length (butlast m)" by (rule sublist_length_le)
      with assms(1) show False by (cases m rule: rev_cases) simp_all
    qed
    ultimately have "c # s = [] @ m @ r \<and> \<not> sublist m ([] @ butlast m)" by simp
    then show ?thesis by blast
  next
    case False
    with Cons.prems have "after_first m s = Some r" by simp
    with Cons.IH obtain p where p: "s = p @ m @ r" "\<not> sublist m (p @ butlast m)" by blast
    have "\<not> prefix m (c # p @ butlast m)"
    proof
      assume "prefix m (c # p @ butlast m)"
      moreover have "prefix (c # p @ butlast m) (c # s)"
        unfolding p(1) using assms(1) by (simp add: prefixeq_butlast)
      ultimately have "prefix m (c # s)" by (rule prefix_order.order_trans)
      with False show False by simp
    qed
    with p have "c # s = (c # p) @ m @ r \<and> \<not> sublist m ((c # p) @ butlast m)"
      by (simp add: sublist_Cons_right)
    then show ?thesis by blast
  qed
qed

lemma absent_in_suffix: "\<not> sublist m t \<Longrightarrow> suffix r t \<Longrightarrow> \<not> sublist m r"
  by (meson sublist_order.order_trans suffix_imp_sublist)

lemma before_first_skip_space:
  assumes "stop \<noteq> []" and "\<not> is_space (hd stop)"
  shows "before_first stop (dropWhile is_space r) = dropWhile is_space (before_first stop r)"
  using assms
proof (induction r)
  case Nil
  show ?case by simp
next
  case (Cons c r)
  show ?case
  proof (cases "is_space c")
    case True
    with Cons.prems have "\<not> prefix stop (c # r)" by (cases stop) auto
    with True Cons show ?thesis by simp
  next
    case False
    then show ?thesis by simp
  qed
qed

lemma corrected_match:
  "rx_exec re_corrected t =
     map_option (\<lambda>r. dropWhile is_space (before_first (utf16 ''WORD_USAGE:'') r))
       (after_first (utf16 ''CORRECTED_TEXT:'') t)"
proof -
  have "utf16 ''CORRECTED_TEXT:'' \<noteq> []" by (simp add: utf16_def)
  moreover have "\<And>r. before_first (utf16 ''WORD_USAGE:'') (dropWhile is_space r)
      = dropWhile is_space (before_first (utf16 ''WORD_USAGE:'') r)"
    by (rule before_first_skip_space) (simp_all add: utf16_def is_space_def)
  ultimately show ?thesis by (simp add: re_corrected_def exec_lazy)
qed

lemma wordUsage_match:
  "rx_exec re_wordUsage t =
     map_option (\<lambda>r. dropWhile is_space (before_first (utf16 ''EXPLANATION:'') r))
       (after_first (utf16 ''WORD_USAGE:'') t)"
proof -
  have "utf16 ''WORD_USAGE:'' \<noteq> []" by (simp add: utf16_def)
  moreover have "\<And>r. before_first (utf16 ''EXPLANATION:'') (dropWhile is_space r)
      = dropWhile is_space (before_first (utf16 ''EXPLANATION:'') r)"
    by (rule before_first_skip_space) (simp_all add: utf16_def is_space_def)
  ultimately show ?thesis by (simp add: re_wordUsage_def exec_lazy)
qed

lemma explanation_match:
  "rx_exec re_explanation t =
     map_option (dropWhile is_space) (after_first (utf16 ''EXPLANATION:'') t)"
proof -
  have "utf16 ''EXPLANATION:'' \<noteq> []" by (simp add: utf16_def)
  then show ?thesis by (simp add: re_explanation_def exec_greedy)
qed

lemma parseLabeled_fields:
  "correctedText (parseLabeled t) =
     (case after_first (utf16 ''CORRECTED_TEXT:'') t of
        None \<Rightarrow> utf16 ''No correction found''
      | Some r \<Rightarrow> trim (before_first (utf16 ''WORD_USAGE:'') r))"
  "wordUsage (parseLabeled t) =
     (case after_first (utf16 ''WORD_USAGE:'') t of
        None \<Rightarrow> utf16 ''No word usage information found''
      | Some r \<Rightarrow> trim (before_first (utf16 ''EXPLANATION:'') r))"
  "explanation (parseLabeled t) =
     (case after_first (utf16 ''EXPLANATION:'') t of
        None \<Rightarrow> utf16 ''No explanation found''
      | Some r \<Rightarrow> trim r)"
  by (simp_all add: parseLabeled_def corrected_match wordUsage_match explanation_match
      trim_dropWhile split: option.splits)

section \<open>Facts about the schema and the handlers\<close>

lemma z_string_Some_iff: "z_string v = Some s \<longleftrightarrow> v = Some (JString s)"
  by (cases "(v)" rule: z_string.cases) simp_all

lemma correctionSchema_parse_Inr_iff:
  "correctionSchema_parse j = Inr r \<longleftrightarrow>
     (\<exists>kvs. j = JObject kvs \<and>
        map_of kvs (utf16 ''correctedText'') = Some (JString (correctedText r)) \<and>
        map_of kvs (utf16 ''wordUsage'') = Some (JString (wordUsage r)) \<and>
        map_of kvs (utf16 ''explanation'') = Some (JString (explanation r)))"
  by (cases r; cases j)
     (auto simp: correctionSchema_parse_def z_string_Some_iff split: option.splits)

lemma correctionSchema_parse_Inl: "correctionSchema_parse j = Inl e \<Longrightarrow> e = ZodError"
  by (cases j) (auto simp: correctionSchema_parse_def split: option.splits)

lemma labeled_try_fails_iff:
  "labeled_try reply = Inl e \<longleftrightarrow>
     (reply = Rejects \<and> e = SdkError) \<or>
     ((reply = Resolves None \<or> reply = Resolves (Some [])) \<and> e = NoResponseFromApi)"
  by (cases reply) (auto simp: labeled_try_def text_or_empty_def split: option.splits)

lemma structured_try_fails_iff:
  "structured_try JSON_parse reply = Inl e \<longleftrightarrow>
     (reply = Rejects \<and> e = SdkError) \<or>
     ((reply = Resolves None \<or> reply = Resolves (Some [])) \<and> e = NoResponseFromApi) \<or>
     (\<exists>t. reply = Resolves (Some t) \<and> t \<noteq> [] \<and> JSON_parse t = None \<and> e = SyntaxError) \<or>
     (\<exists>t j. reply = Resolves (Some t) \<and> t \<noteq> [] \<and> JSON_parse t = Some j \<and>
        correctionSchema_parse j = Inl e)"
  by (cases reply)
     (auto simp: structured_try_def text_or_empty_def split: option.splits)

lemmas eval_string = utf16_def is_space_def trim_def sublist_Cons_right

lemmas handler_defs = handleCorrect_labeled_def handleCorrect_labeled_begin_def
  handleCorrect_structured_def handleCorrect_structured_begin_def settle_def

lemma sample_app_valid:
  "trim (inputText (session sample_app)) \<noteq> []" "apiKey (session sample_app) \<noteq> []"
  by (simp_all add: sample_app_def initialState_def eval_string)

section \<open>Labeled-section mode\<close>

text \<open>
  Claim C3. In labeled-section mode, the text
  \<open>CORRECTED_TEXT:\nA\n\nWORD_USAGE:\nB\n\nEXPLANATION:\nC\<close> parses to exactly the record
  with \<open>correctedText = A\<close>, \<open>wordUsage = B\<close> and \<open>explanation = C\<close>.
\<close>

theorem parse_three_sections:
  "parseLabeled
     (utf16 ''CORRECTED_TEXT:\<newline>A\<newline>\<newline>WORD_USAGE:\<newline>B\<newline>\<newline>EXPLANATION:\<newline>C'')
   = \<lparr> correctedText = utf16 ''A'', wordUsage = utf16 ''B'', explanation = utf16 ''C'' \<rparr>"
  by (simp add: parseLabeled_def utf16_def re_corrected_def re_wordUsage_def
      re_explanation_def is_space_def trim_def)

text \<open>
  Claim C1, as amended. For every response text that does not contain \<open>WORD_USAGE:\<close>,
  parsing yields \<open>wordUsage = "No word usage information found"\<close> and, the text being
  non-empty, the operation succeeds with the parsed record. The other two fields are the
  placeholder when their marker is absent; when it is present, each is the trimmed text
  from after the first occurrence of its marker to the end of the text. The corrected
  section ends at \<open>WORD_USAGE:\<close> or at the end of the text only, so it runs over an
  \<open>EXPLANATION:\<close> marker and section that follow it.
\<close>

theorem missing_usage_marker:
  assumes "\<not> sublist (utf16 ''WORD_USAGE:'') t"
  shows "wordUsage (parseLabeled t) = utf16 ''No word usage information found'' \<and>
         correctedText (parseLabeled t) =
           (case after_first (utf16 ''CORRECTED_TEXT:'') t of
              None \<Rightarrow> utf16 ''No correction found'' | Some r \<Rightarrow> trim r) \<and>
         explanation (parseLabeled t) =
           (case after_first (utf16 ''EXPLANATION:'') t of
              None \<Rightarrow> utf16 ''No explanation found'' | Some r \<Rightarrow> trim r) \<and>
         labeled_try (Resolves (Some t)) =
           (if t = [] then Inl NoResponseFromApi else Inr (parseLabeled t))"
proof -
  from assms have "after_first (utf16 ''WORD_USAGE:'') t = None"
    by (simp add: after_first_sublist)
  then have w: "wordUsage (parseLabeled t) = utf16 ''No word usage information found''"
    by (simp add: parseLabeled_fields)
  have c: "correctedText (parseLabeled t) =
           (case after_first (utf16 ''CORRECTED_TEXT:'') t of
              None \<Rightarrow> utf16 ''No correction found'' | Some r \<Rightarrow> trim r)"
  proof (cases "after_first (utf16 ''CORRECTED_TEXT:'') t")
    case None
    then show ?thesis by (simp add: parseLabeled_fields)
  next
    case (Some r)
    then have "suffix r t" by (rule after_first_suffix)
    with assms have "\<not> sublist (utf16 ''WORD_USAGE:'') r" by (rule absent_in_suffix)
    then have "before_first (utf16 ''WORD_USAGE:'') r = r" by (rule before_first_absent)
    with Some show ?thesis by (simp add: parseLabeled_fields)
  qed
  have l: "labeled_try (Resolves (Some t)) =
           (if t = [] then Inl NoResponseFromApi else Inr (parseLabeled t))"
    by (simp add: labeled_try_def text_or_empty_def)
  from w c l show ?thesis by (simp add: parseLabeled_fields)
qed

theorem missing_usage_marker_witness:
  "wordUsage (parseLabeled sample_no_usage) = utf16 ''No word usage information found'' \<and>
   correctedText (parseLabeled sample_no_usage) = utf16 ''A\<newline>\<newline>EXPLANATION:\<newline>C'' \<and>
   explanation (parseLabeled sample_no_usage) = utf16 ''C'' \<and>
   labeled_try (Resolves (Some sample_no_usage)) = Inr (parseLabeled sample_no_usage)"
proof -
  have h: "\<not> sublist (utf16 ''WORD_USAGE:'') sample_no_usage"
    by (simp add: sample_no_usage_def eval_string)
  have c: "after_first (utf16 ''CORRECTED_TEXT:'') sample_no_usage
             = Some (utf16 ''\<newline>A\<newline>\<newline>EXPLANATION:\<newline>C'')"
    by (simp add: sample_no_usage_def eval_string)
  have e: "after_first (utf16 ''EXPLANATION:'') sample_no_usage = Some (utf16 ''\<newline>C'')"
    by (simp add: sample_no_usage_def eval_string)
  have n: "sample_no_usage \<noteq> []" by (simp add: sample_no_usage_def utf16_def)
  have t1: "trim (utf16 ''\<newline>A\<newline>\<newline>EXPLANATION:\<newline>C'') = utf16 ''A\<newline>\<newline>EXPLANATION:\<newline>C''"
    by (simp add: eval_string)
  have t2: "trim (utf16 ''\<newline>C'') = utf16 ''C''"
    by (simp add: eval_string)
  from missing_usage_marker [OF h] c e n t1 t2 show ?thesis by simp
qed

text \<open>
  The claim as written has each of the two fields equal to its own section, which the
  specification ends at the next marker. On \<open>CORRECTED_TEXT:\nA\n\nEXPLANATION:\nC\<close> the
  section of the corrected text is \<open>\nA\n\n\<close>, while the field holds the explanation
  section as well.
\<close>

theorem missing_usage_counterexample:
  "\<not> sublist (utf16 ''WORD_USAGE:'') sample_no_usage \<and>
   spec_section (utf16 ''CORRECTED_TEXT:'') sample_no_usage = Some (utf16 ''\<newline>A\<newline>\<newline>'') \<and>
   spec_section (utf16 ''EXPLANATION:'') sample_no_usage = Some (utf16 ''\<newline>C'') \<and>
   explanation (parseLabeled sample_no_usage) = utf16 ''C'' \<and>
   correctedText (parseLabeled sample_no_usage) = utf16 ''A\<newline>\<newline>EXPLANATION:\<newline>C'' \<and>
   correctedText (parseLabeled sample_no_usage) \<noteq> utf16 ''\<newline>A\<newline>\<newline>'' \<and>
   correctedText (parseLabeled sample_no_usage) \<noteq> trim (utf16 ''\<newline>A\<newline>\<newline>'')"
  by (simp add: sample_no_usage_def parseLabeled_fields spec_section_def markers_def eval_string)

text \<open>
  Claim C9. In labeled-section mode no field of the result starts or ends with white
  space: a located section (the text after the first occurrence of its marker, up to the
  first occurrence of the marker that ends it, or to the end of the text) is stored
  trimmed, and each of the three placeholders is free of outer white space.
\<close>

theorem labeled_fields_trimmed:
  "outer_space_free (correctedText (parseLabeled t)) \<and>
   outer_space_free (wordUsage (parseLabeled t)) \<and>
   outer_space_free (explanation (parseLabeled t)) \<and>
   correctedText (parseLabeled t) =
     (case after_first (utf16 ''CORRECTED_TEXT:'') t of
        None \<Rightarrow> utf16 ''No correction found''
      | Some r \<Rightarrow> trim (before_first (utf16 ''WORD_USAGE:'') r)) \<and>
   wordUsage (parseLabeled t) =
     (case after_first (utf16 ''WORD_USAGE:'') t of
        None \<Rightarrow> utf16 ''No word usage information found''
      | Some r \<Rightarrow> trim (before_first (utf16 ''EXPLANATION:'') r)) \<and>
   explanation (parseLabeled t) =
     (case after_first (utf16 ''EXPLANATION:'') t of
        None \<Rightarrow> utf16 ''No explanation found''
      | Some r \<Rightarrow> trim r) \<and>
   outer_space_free (utf16 ''No correction found'') \<and>
   outer_space_free (utf16 ''No word usage information found'') \<and>
   outer_space_free (utf16 ''No explanation found'')"
proof -
  have p1: "outer_space_free (utf16 ''No correction found'')"
    by (simp add: outer_space_free_def utf16_def is_space_def)
  have p2: "outer_space_free (utf16 ''No word usage information found'')"
    by (simp add: outer_space_free_def utf16_def is_space_def)
  have p3: "outer_space_free (utf16 ''No explanation found'')"
    by (simp add: outer_space_free_def utf16_def is_space_def)
  have f1: "outer_space_free (correctedText (parseLabeled t))"
    unfolding parseLabeled_fields using p1 by (simp add: outer_space_free_trim split: option.split)
  have f2: "outer_space_free (wordUsage (parseLabeled t))"
    unfolding parseLabeled_fields using p2 by (simp add: outer_space_free_trim split: option.split)
  have f3: "outer_space_free (explanation (parseLabeled t))"
    unfolding parseLabeled_fields using p3 by (simp add: outer_space_free_trim split: option.split)
  from p1 p2 p3 f1 f2 f3 show ?thesis by (simp only: parseLabeled_fields simp_thms)
qed

theorem labeled_fields_trimmed_witness:
  "outer_space_free (correctedText (parseLabeled sample_no_usage)) \<and>
   outer_space_free (wordUsage (parseLabeled sample_no_usage)) \<and>
   outer_space_free (explanation (parseLabeled sample_no_usage)) \<and>
   outer_space_free (utf16 ''No correction found'')"
  using labeled_fields_trimmed [of sample_no_usage] by blast

section \<open>Structured mode\<close>

text \<open>
  Claim C2, as amended. In structured mode, for a submission with input and key and a
  non-empty response text: if \<open>JSON.parse\<close> throws or the schema rejects the value, the
  handler takes the error path (generic message, no result, loading off); and whenever
  decoding succeeds the value is an object whose three keys hold strings, the three
  fields of the stored result are exactly those strings, and they may be empty.
\<close>

theorem structured_decode:
  assumes "trim (inputText (session a)) \<noteq> []" and "apiKey (session a) \<noteq> []"
    and "t \<noteq> []"
  shows "(JSON_parse t = None \<or>
            (\<exists>j e. JSON_parse t = Some j \<and> correctionSchema_parse j = Inl e) \<longrightarrow>
          session (handleCorrect_structured JSON_parse (Resolves (Some t)) a)
            = (session a)\<lparr> loading := False, result := None,
                 error := utf16 ''Failed to get correction. Please check your API key and try again.'' \<rparr>) \<and>
         (\<forall>j r. JSON_parse t = Some j \<and> correctionSchema_parse j = Inr r \<longrightarrow>
            (\<exists>kvs. j = JObject kvs \<and>
               map_of kvs (utf16 ''correctedText'') = Some (JString (correctedText r)) \<and>
               map_of kvs (utf16 ''wordUsage'') = Some (JString (wordUsage r)) \<and>
               map_of kvs (utf16 ''explanation'') = Some (JString (explanation r))) \<and>
            session (handleCorrect_structured JSON_parse (Resolves (Some t)) a)
              = (session a)\<lparr> loading := False, error := [], result := Some r \<rparr>)"
proof -
  let ?final = "session (handleCorrect_structured JSON_parse (Resolves (Some t)) a)"
  have fin: "?final = session (settle (case JSON_parse t of None \<Rightarrow> Inl SyntaxError
                | Some j \<Rightarrow> correctionSchema_parse j)
              (a\<lparr>session := (session a)\<lparr>loading := True, error := [], result := None\<rparr>\<rparr>))"
    using assms by (simp add: handler_defs structured_try_def text_or_empty_def)
  have bad: "JSON_parse t = None \<or>
            (\<exists>j e. JSON_parse t = Some j \<and> correctionSchema_parse j = Inl e) \<longrightarrow>
          ?final = (session a)\<lparr> loading := False, result := None,
                 error := utf16 ''Failed to get correction. Please check your API key and try again.'' \<rparr>"
    unfolding fin by (auto simp: settle_def)
  have good: "\<forall>j r. JSON_parse t = Some j \<and> correctionSchema_parse j = Inr r \<longrightarrow>
            (\<exists>kvs. j = JObject kvs \<and>
               map_of kvs (utf16 ''correctedText'') = Some (JString (correctedText r)) \<and>
               map_of kvs (utf16 ''wordUsage'') = Some (JString (wordUsage r)) \<and>
               map_of kvs (utf16 ''explanation'') = Some (JString (explanation r))) \<and>
            ?final = (session a)\<lparr> loading := False, error := [], result := Some r \<rparr>"
  proof (intro allI impI conjI)
    fix j r
    assume h: "JSON_parse t = Some j \<and> correctionSchema_parse j = Inr r"
    then show "\<exists>kvs. j = JObject kvs \<and>
               map_of kvs (utf16 ''correctedText'') = Some (JString (correctedText r)) \<and>
               map_of kvs (utf16 ''wordUsage'') = Some (JString (wordUsage r)) \<and>
               map_of kvs (utf16 ''explanation'') = Some (JString (explanation r))"
      by (simp add: correctionSchema_parse_Inr_iff)
    from h show "?final = (session a)\<lparr> loading := False, error := [], result := Some r \<rparr>"
      unfolding fin by (simp add: settle_def)
  qed
  from bad good show ?thesis by (rule conjI)
qed

theorem structured_decode_witness:
  "session (handleCorrect_structured Map.empty (Resolves (Some (utf16 ''not json''))) sample_app)
     = (session sample_app)\<lparr> loading := False, result := None,
          error := utf16 ''Failed to get correction. Please check your API key and try again.'' \<rparr> \<and>
   session (handleCorrect_structured [empty_fields_text \<mapsto> empty_fields_json]
              (Resolves (Some empty_fields_text)) sample_app)
     = (session sample_app)\<lparr> loading := False, error := [],
          result := Some \<lparr> correctedText = [], wordUsage = [], explanation = [] \<rparr> \<rparr>"
proof -
  have n1: "utf16 ''not json'' \<noteq> []" by (simp add: utf16_def)
  have n2: "empty_fields_text \<noteq> []" by (simp add: empty_fields_text_def utf16_def)
  have d: "correctionSchema_parse empty_fields_json
             = Inr \<lparr> correctedText = [], wordUsage = [], explanation = [] \<rparr>"
    by (simp add: correctionSchema_parse_def empty_fields_json_def utf16_def)
  from structured_decode [OF sample_app_valid n1, of Map.empty]
  have a: "session (handleCorrect_structured Map.empty (Resolves (Some (utf16 ''not json''))) sample_app)
     = (session sample_app)\<lparr> loading := False, result := None,
          error := utf16 ''Failed to get correction. Please check your API key and try again.'' \<rparr>"
    by simp
  from structured_decode [OF sample_app_valid n2, of "[empty_fields_text \<mapsto> empty_fields_json]"] d
  have b: "session (handleCorrect_structured [empty_fields_text \<mapsto> empty_fields_json]
              (Resolves (Some empty_fields_text)) sample_app)
     = (session sample_app)\<lparr> loading := False, error := [],
          result := Some \<lparr> correctedText = [], wordUsage = [], explanation = [] \<rparr> \<rparr>"
    by simp
  from a b show ?thesis by (rule conjI)
qed

text \<open>
  The claim as written has the three decoded fields non-empty. The schema is three
  \<open>z.string()\<close> without a minimum length: an object of three empty strings decodes, and
  the handler stores it.
\<close>

theorem empty_fields_counterexample:
  "correctionSchema_parse empty_fields_json
     = Inr \<lparr> correctedText = [], wordUsage = [], explanation = [] \<rparr> \<and>
   result (session (handleCorrect_structured [empty_fields_text \<mapsto> empty_fields_json]
                      (Resolves (Some empty_fields_text)) sample_app))
     = Some \<lparr> correctedText = [], wordUsage = [], explanation = [] \<rparr>"
  by (simp add: handler_defs structured_try_def text_or_empty_def correctionSchema_parse_def
      empty_fields_json_def empty_fields_text_def sample_app_def initialState_def eval_string)

text \<open>
  Claim C4. For a submission with non-empty input and a key, a structured response whose
  JSON value holds a string under each of the three keys is stored as the result with
  exactly those three strings, the error cleared and loading off.
\<close>

theorem structured_roundtrip:
  assumes "trim (inputText (session a)) \<noteq> []" and "apiKey (session a) \<noteq> []"
    and "t \<noteq> []" and "JSON_parse t = Some (JObject kvs)"
    and "map_of kvs (utf16 ''correctedText'') = Some (JString c)"
    and "map_of kvs (utf16 ''wordUsage'') = Some (JString w)"
    and "map_of kvs (utf16 ''explanation'') = Some (JString e)"
  shows "session (handleCorrect_structured JSON_parse (Resolves (Some t)) a)
           = (session a)\<lparr> loading := False, error := [],
                result := Some \<lparr> correctedText = c, wordUsage = w, explanation = e \<rparr> \<rparr>"
  using assms
  by (simp add: handler_defs structured_try_def text_or_empty_def correctionSchema_parse_def)

theorem structured_roundtrip_witness:
  "session (handleCorrect_structured [sample_reply_text \<mapsto> sample_reply_json]
              (Resolves (Some sample_reply_text)) sample_app)
     = (session sample_app)\<lparr> loading := False, error := [],
          result := Some \<lparr> correctedText = utf16 '' He goes home. '',
                            wordUsage = utf16 ''go -> goes'',
                            explanation = utf16 ''Third person.'' \<rparr> \<rparr>"
proof -
  have n: "sample_reply_text \<noteq> []" by (simp add: sample_reply_text_def utf16_def)
  have p: "[sample_reply_text \<mapsto> sample_reply_json] sample_reply_text
             = Some (JObject [(utf16 ''correctedText'', JString (utf16 '' He goes home. '')),
              (utf16 ''wordUsage'', JString (utf16 ''go -> goes'')),
              (utf16 ''explanation'', JString (utf16 ''Third person.'')),
              (utf16 ''extra'', JNumber 0x3FF0000000000000)])"
    by (simp add: sample_reply_json_def)
  show ?thesis
    by (rule structured_roundtrip
          [where JSON_parse = "[sample_reply_text \<mapsto> sample_reply_json]"
             and t = sample_reply_text, OF sample_app_valid n p])
       (simp_all add: utf16_def)
qed

section \<open>The session state machine\<close>

text \<open>
  Claim C5. A submission with non-empty input and a key enters the loading state (in
  both variants the handler suspends with \<open>loading\<close> set, the message cleared and the
  result cleared). If the call then fails, whatever is thrown (a rejected call, an empty
  response, or in structured mode a text that does not parse or decode), the session ends
  with the generic message, no result and \<open>loading = False\<close>; the cause is logged and
  nothing else changes.
\<close>

theorem failed_call_ends_in_error:
  assumes "trim (inputText (session a)) \<noteq> []" and "apiKey (session a) \<noteq> []"
  shows "(\<exists>rq. handleCorrect_labeled_begin a =
            Await (a\<lparr>session := (session a)\<lparr>loading := True, error := [], result := None\<rparr>\<rparr>) rq) \<and>
         (\<exists>rq. handleCorrect_structured_begin a =
            Await (a\<lparr>session := (session a)\<lparr>loading := True, error := [], result := None\<rparr>\<rparr>) rq) \<and>
         (\<forall>e. labeled_try reply = Inl e \<longrightarrow>
            handleCorrect_labeled reply a =
              a\<lparr> session := (session a)\<lparr> loading := False, result := None,
                     error := utf16 ''Failed to get correction. Please check your API key and try again.'' \<rparr>,
                 console := console a @ [e] \<rparr>) \<and>
         (\<forall>e. structured_try JSON_parse reply = Inl e \<longrightarrow>
            handleCorrect_structured JSON_parse reply a =
              a\<lparr> session := (session a)\<lparr> loading := False, result := None,
                     error := utf16 ''Failed to get correction. Please check your API key and try again.'' \<rparr>,
                 console := console a @ [e] \<rparr>)"
  using assms by (simp add: handler_defs)

theorem failed_call_ends_in_error_witness:
  "session (handleCorrect_labeled Rejects sample_app)
     = (session sample_app)\<lparr> loading := False, result := None,
          error := utf16 ''Failed to get correction. Please check your API key and try again.'' \<rparr> \<and>
   console (handleCorrect_labeled (Resolves None) sample_app) = [NoResponseFromApi] \<and>
   session (handleCorrect_structured [missing_field_text \<mapsto> missing_field_json]
              (Resolves (Some missing_field_text)) sample_app)
     = (session sample_app)\<lparr> loading := False, result := None,
          error := utf16 ''Failed to get correction. Please check your API key and try again.'' \<rparr> \<and>
   console (handleCorrect_structured [missing_field_text \<mapsto> missing_field_json]
              (Resolves (Some missing_field_text)) sample_app) = [ZodError]"
proof -
  have l1: "labeled_try Rejects = Inl SdkError" by (simp add: labeled_try_def)
  have l2: "labeled_try (Resolves None) = Inl NoResponseFromApi"
    by (simp add: labeled_try_def text_or_empty_def)
  have s1: "structured_try [missing_field_text \<mapsto> missing_field_json] (Resolves (Some missing_field_text))
              = Inl ZodError"
    by (simp add: structured_try_def text_or_empty_def correctionSchema_parse_def
        missing_field_json_def missing_field_text_def utf16_def)
  have c: "console sample_app = []" by (simp add: sample_app_def)
  from failed_call_ends_in_error [OF sample_app_valid, of Rejects] l1
  have a: "session (handleCorrect_labeled Rejects sample_app)
     = (session sample_app)\<lparr> loading := False, result := None,
          error := utf16 ''Failed to get correction. Please check your API key and try again.'' \<rparr>"
    by simp
  from failed_call_ends_in_error [OF sample_app_valid, of "Resolves None"] l2 c
  have b: "console (handleCorrect_labeled (Resolves None) sample_app) = [NoResponseFromApi]"
    by simp
  from failed_call_ends_in_error [OF sample_app_valid,
      of "Resolves (Some missing_field_text)" "[missing_field_text \<mapsto> missing_field_json]"] s1 c
  have d: "session (handleCorrect_structured [missing_field_text \<mapsto> missing_field_json]
              (Resolves (Some missing_field_text)) sample_app)
     = (session sample_app)\<lparr> loading := False, result := None,
          error := utf16 ''Failed to get correction. Please check your API key and try again.'' \<rparr>"
    and e: "console (handleCorrect_structured [missing_field_text \<mapsto> missing_field_json]
              (Resolves (Some missing_field_text)) sample_app) = [ZodError]"
    by simp_all
  from a b d e show ?thesis by simp
qed

text \<open>
  Claim C6. When the input text is empty or white space only, the submit action returns
  before its \<open>await\<close> (no request is issued and \<open>loading\<close> is never set) and sets the
  message asking for text; every other field is unchanged, whatever the service would
  have replied.
\<close>

theorem blank_input_rejected:
  assumes "\<forall>c\<in>set (inputText (session a)). is_space c"
  shows "handleCorrect_labeled_begin a =
           Done (a\<lparr>session := (session a)\<lparr>error := utf16 ''Please enter a sentence to correct.''\<rparr>\<rparr>) \<and>
         handleCorrect_structured_begin a =
           Done (a\<lparr>session := (session a)\<lparr>error := utf16 ''Please enter text to correct.''\<rparr>\<rparr>) \<and>
         handleCorrect_labeled reply a =
           a\<lparr>session := (session a)\<lparr>error := utf16 ''Please enter a sentence to correct.''\<rparr>\<rparr> \<and>
         handleCorrect_structured JSON_parse reply a =
           a\<lparr>session := (session a)\<lparr>error := utf16 ''Please enter text to correct.''\<rparr>\<rparr>"
proof -
  from assms have "trim (inputText (session a)) = []" by (simp add: trim_empty_iff)
  then show ?thesis by (simp add: handler_defs)
qed

theorem blank_input_rejected_witness:
  "handleCorrect_labeled_begin blank_app =
     Done (blank_app\<lparr>session := (session blank_app)\<lparr>error := utf16 ''Please enter a sentence to correct.''\<rparr>\<rparr>) \<and>
   handleCorrect_structured_begin blank_app =
     Done (blank_app\<lparr>session := (session blank_app)\<lparr>error := utf16 ''Please enter text to correct.''\<rparr>\<rparr>) \<and>
   loading (session (handleCorrect_labeled (Resolves (Some (utf16 ''x''))) blank_app)) = False \<and>
   error (session (handleCorrect_structured Map.empty Rejects blank_app))
     = utf16 ''Please enter text to correct.''"
proof -
  have h: "\<forall>c\<in>set (inputText (session blank_app)). is_space c"
    by (simp add: blank_app_def initialState_def utf16_def is_space_def)
  have l: "loading (session blank_app) = False" by (simp add: blank_app_def initialState_def)
  from blank_input_rejected [OF h, of "Resolves (Some (utf16 ''x''))" Map.empty]
       blank_input_rejected [OF h, of Rejects Map.empty] l
  show ?thesis by simp
qed

text \<open>
  Claim C7. When the input text is not blank and no key is set, the submit action
  returns before its \<open>await\<close> (no request is issued), opens the settings and sets the
  message asking for the key.
\<close>

theorem missing_key_opens_settings:
  assumes "trim (inputText (session a)) \<noteq> []" and "apiKey (session a) = []"
  shows "handleCorrect_labeled_begin a =
           Done (a\<lparr>session := (session a)\<lparr>showSettings := True,
                    error := utf16 ''Please set your Google API key first.''\<rparr>\<rparr>) \<and>
         handleCorrect_structured_begin a =
           Done (a\<lparr>session := (session a)\<lparr>showSettings := True,
                    error := utf16 ''Please set your Google API key first.''\<rparr>\<rparr>) \<and>
         handleCorrect_labeled reply a =
           a\<lparr>session := (session a)\<lparr>showSettings := True,
                    error := utf16 ''Please set your Google API key first.''\<rparr>\<rparr> \<and>
         handleCorrect_structured JSON_parse reply a =
           a\<lparr>session := (session a)\<lparr>showSettings := True,
                    error := utf16 ''Please set your Google API key first.''\<rparr>\<rparr>"
  using assms by (simp add: handler_defs)

theorem missing_key_opens_settings_witness:
  "handleCorrect_labeled_begin keyless_app =
     Done (keyless_app\<lparr>session := (session keyless_app)\<lparr>showSettings := True,
              error := utf16 ''Please set your Google API key first.''\<rparr>\<rparr>) \<and>
   showSettings (session (handleCorrect_structured Map.empty (Resolves None) keyless_app)) = True \<and>
   error (session (handleCorrect_labeled Rejects keyless_app))
     = utf16 ''Please set your Google API key first.''"
proof -
  have h: "trim (inputText (session keyless_app)) \<noteq> []" "apiKey (session keyless_app) = []"
    by (simp_all add: keyless_app_def initialState_def eval_string)
  from missing_key_opens_settings [OF h, of Rejects Map.empty]
       missing_key_opens_settings [OF h, of "Resolves None" Map.empty]
  show ?thesis by simp
qed

text \<open>
  Claim C8. When the pending key is not blank, saving writes its trimmed value to local
  storage under \<open>gemini_api_key\<close> and makes the same trimmed value the key in memory, so
  both agree and carry no outer white space; \<open>" abc "\<close> is saved as \<open>"abc"\<close>.
\<close>

theorem save_key_stores_trimmed:
  assumes "trim (tempApiKey (session a)) \<noteq> []"
  shows "handleSaveApiKey a =
           a\<lparr> localStorage :=
                (localStorage a)(utf16 ''gemini_api_key'' \<mapsto> trim (tempApiKey (session a))),
              session := (session a)\<lparr> apiKey := trim (tempApiKey (session a)),
                           showSettings := False, tempApiKey := [] \<rparr> \<rparr> \<and>
         localStorage (handleSaveApiKey a) (utf16 ''gemini_api_key'')
           = Some (trim (tempApiKey (session a))) \<and>
         apiKey (session (handleSaveApiKey a)) = trim (tempApiKey (session a)) \<and>
         outer_space_free (apiKey (session (handleSaveApiKey a)))"
  using assms by (simp add: handleSaveApiKey_def outer_space_free_trim)

theorem save_key_stores_trimmed_witness:
  "localStorage (handleSaveApiKey fresh_app) (utf16 ''gemini_api_key'') = Some (utf16 ''abc'') \<and>
   apiKey (session (handleSaveApiKey fresh_app)) = utf16 ''abc''"
proof -
  have t: "trim (tempApiKey (session fresh_app)) = utf16 ''abc''"
    by (simp add: fresh_app_def initialState_def eval_string)
  have h: "trim (tempApiKey (session fresh_app)) \<noteq> []"
    by (simp add: t) (simp add: utf16_def)
  from save_key_stores_trimmed [OF h] show ?thesis by (simp add: t)
qed

text \<open>
  Claim C10. When the pending key is empty or white space only, saving changes nothing:
  local storage, the key, the settings flag and the pending key all stay as they are.
\<close>

theorem save_blank_key_noop:
  assumes "\<forall>c\<in>set (tempApiKey (session a)). is_space c"
  shows "handleSaveApiKey a = a"
proof -
  from assms have "trim (tempApiKey (session a)) = []" by (simp add: trim_empty_iff)
  then show ?thesis by (simp add: handleSaveApiKey_def)
qed

theorem save_blank_key_noop_witness:
  "handleSaveApiKey blank_app = blank_app"
proof -
  have h: "\<forall>c\<in>set (tempApiKey (session blank_app)). is_space c"
    by (simp add: blank_app_def initialState_def utf16_def is_space_def)
  from save_blank_key_noop [OF h] show ?thesis .
qed

end
